theory Spec2Isabelle
  imports Complex_Main "HOL-Library.Multiset"
begin

section \<open>Strings\<close>

text \<open>
  Python strings are modelled as \<open>string\<close>: lists of 8-bit characters, read as the code
  points 0..255 (Latin-1).  Every string that enters the knowledge base has passed
  \<open>as_pystr\<close> and is pure ASCII, and every slug consists of \<open>[a-z0-9_]\<close> only.
\<close>

definition py_isspace :: "char \<Rightarrow> bool" where
  "py_isspace c =
     (let n = (of_char c :: nat)
      in (9 \<le> n \<and> n \<le> 13) \<or> (28 \<le> n \<and> n \<le> 32) \<or> n = 133 \<or> n = 160)"

text \<open>\<^verbatim>\<open>str.strip()\<close>: leading and trailing whitespace removed.\<close>

definition strip :: "string \<Rightarrow> string" where
  "strip s = rev (dropWhile py_isspace (rev (dropWhile py_isspace s)))"

text \<open>\<^verbatim>\<open>str.lower()\<close>, one character at a time.\<close>

definition py_lower :: "char \<Rightarrow> char" where
  "py_lower c =
     (let n = (of_char c :: nat)
      in if (65 \<le> n \<and> n \<le> 90) \<or> (192 \<le> n \<and> n \<le> 222 \<and> n \<noteq> 215)
         then char_of (n + 32) else c)"

definition lower :: "string \<Rightarrow> string" where
  "lower s = map py_lower s"

text \<open>\<^verbatim>\<open>str.replace(a, b)\<close> for single characters \<open>a\<close> and \<open>b\<close>.\<close>

definition replace :: "char \<Rightarrow> char \<Rightarrow> string \<Rightarrow> string" where
  "replace a b s = map (\<lambda>c. if c = a then b else c) s"

text \<open>\<^verbatim>\<open>str.startswith(p)\<close>.\<close>

definition startswith :: "string \<Rightarrow> string \<Rightarrow> bool" where
  "startswith s p = (take (length p) s = p)"

text \<open>\<^verbatim>\<open>sub in s\<close>: \<open>sub\<close> occurs in \<open>s\<close> as a contiguous substring.\<close>

fun py_in :: "string \<Rightarrow> string \<Rightarrow> bool" where
  "py_in sub [] = (sub = [])"
| "py_in sub (y # ys) = (startswith (y # ys) sub \<or> py_in sub ys)"

text \<open>\<^verbatim>\<open>str.split(sep)\<close> for a single separator character; the loop keeps the piece
  read so far.\<close>

fun split_from :: "char \<Rightarrow> string \<Rightarrow> string \<Rightarrow> string list" where
  "split_from sep cur [] = [cur]"
| "split_from sep cur (x # xs) =
     (if x = sep then cur # split_from sep [] xs else split_from sep (cur @ [x]) xs)"

definition split :: "char \<Rightarrow> string \<Rightarrow> string list" where
  "split sep s = split_from sep [] s"

text \<open>\<^verbatim>\<open>as_pystr\<close> on a string: encode to ASCII dropping what does not encode.\<close>

definition as_pystr :: "string \<Rightarrow> string" where
  "as_pystr x = filter (\<lambda>c. (of_char c :: nat) < 128) x"

section \<open>Slugs\<close>

text \<open>The character class \<^verbatim>\<open>[a-z0-9_]\<close>.\<close>

definition slug_char :: "char \<Rightarrow> bool" where
  "slug_char c =
     (let n = (of_char c :: nat)
      in (97 \<le> n \<and> n \<le> 122) \<or> (48 \<le> n \<and> n \<le> 57) \<or> n = 95)"

text \<open>\<^verbatim>\<open>re.sub(r'^UMLS:', '', text, flags=re.IGNORECASE)\<close>.\<close>

definition strip_umls_prefix :: "string \<Rightarrow> string" where
  "strip_umls_prefix t = (if lower (take 5 t) = ''umls:'' then drop 5 t else t)"

definition slugify :: "string \<Rightarrow> string" where
  "slugify text0 =
     (let t1 = strip text0;
          t2 = strip_umls_prefix t1;
          t3 = lower (replace (CHR '' '') (CHR ''_'') (replace (CHR '':'') (CHR ''_'') t2));
          t4 = filter slug_char t3
      in if \<not> startswith t4 ''umls_'' then ''umls_'' @ t4 else t4)"

text \<open>A normalised slug: only \<^verbatim>\<open>[a-z0-9_]\<close>, starting with the namespace marker.\<close>

definition is_slug :: "string \<Rightarrow> bool" where
  "is_slug s = (list_all slug_char s \<and> startswith s ''umls_'')"

section \<open>Dictionaries\<close>

text \<open>
  A Python \<^verbatim>\<open>dict\<close> iterates in insertion order, and both the resolver and the ranking
  depend on that order, so a dictionary is an association list with distinct keys.
  \<open>dict_set\<close> is the assignment \<^verbatim>\<open>d[k] = v\<close>: a key that is present keeps its
  position and takes the new value, a new key goes to the end.
\<close>

fun dict_set :: "('k \<times> 'v) list \<Rightarrow> 'k \<Rightarrow> 'v \<Rightarrow> ('k \<times> 'v) list" where
  "dict_set [] k v = [(k, v)]"
| "dict_set ((k', v') # kvs) k v =
     (if k' = k then (k', v) # kvs else (k', v') # dict_set kvs k v)"

text \<open>\<^verbatim>\<open>d.get(k)\<close>.\<close>

definition dict_get :: "('k \<times> 'v) list \<Rightarrow> 'k \<Rightarrow> 'v option" where
  "dict_get d k = map_of d k"

text \<open>\<^verbatim>\<open>d.setdefault(k, set()).add(x)\<close>.\<close>

fun setdefault_add :: "('k \<times> 'v set) list \<Rightarrow> 'k \<Rightarrow> 'v \<Rightarrow> ('k \<times> 'v set) list" where
  "setdefault_add [] k x = [(k, {x})]"
| "setdefault_add ((k', s) # kvs) k x =
     (if k' = k then (k', insert x s) # kvs else (k', s) # setdefault_add kvs k x)"

section \<open>The knowledge base\<close>

text \<open>
  The global state of \<^verbatim>\<open>app.py\<close>: the two label tables and the Prolog database.  The
  database holds the \<^verbatim>\<open>has_symptom(Disease, Symptom)\<close> facts in the order
  \<^verbatim>\<open>assertz\<close> appended them (duplicates stay), and a query enumerates its solutions
  in that order.
\<close>

record kb =
  disease_label_map :: "(string \<times> string) list"
  symptom_label_map :: "(string \<times> string) list"
  prolog :: "(string \<times> string) list"

definition empty_kb :: kb where
  "empty_kb = \<lparr>disease_label_map = [], symptom_label_map = [], prolog = []\<rparr>"

text \<open>One row of the spreadsheet, columns \<^verbatim>\<open>Disease\<close> and \<^verbatim>\<open>Symptom\<close>, each cell as the
  text that \<^verbatim>\<open>str\<close> gives for it.\<close>

record row =
  Disease :: string
  Symptom :: string

text \<open>\<^verbatim>\<open>prolog.assertz("has_symptom(%p, %p)", d, s)\<close>.\<close>

definition assertz :: "kb \<Rightarrow> string \<Rightarrow> string \<Rightarrow> kb" where
  "assertz st d s = st\<lparr>prolog := prolog st @ [(d, s)]\<rparr>"

text \<open>\<^verbatim>\<open>prolog.query("has_symptom(Disease, %p)", s)\<close>: the bindings of \<^verbatim>\<open>Disease\<close>.\<close>

definition query :: "kb \<Rightarrow> string \<Rightarrow> string list" where
  "query st s = map fst (filter (\<lambda>f. snd f = s) (prolog st))"

text \<open>The inner loop of \<^verbatim>\<open>load_prolog_from_xlsx\<close>, over the pieces of one symptom cell.\<close>

fun load_symptoms :: "string \<Rightarrow> string list \<Rightarrow> kb \<Rightarrow> kb" where
  "load_symptoms d_slug [] st = st"
| "load_symptoms d_slug (piece # pieces) st =
     (let s_raw = strip (as_pystr piece);
          s_slug = slugify s_raw;
          st1 = st\<lparr>symptom_label_map := dict_set (symptom_label_map st) s_slug s_raw\<rparr>;
          st2 = assertz st1 (as_pystr d_slug) (as_pystr s_slug)
      in load_symptoms d_slug pieces st2)"

definition load_row :: "row \<Rightarrow> kb \<Rightarrow> kb" where
  "load_row r st =
     (let d_raw = strip (as_pystr (Disease r));
          d_slug = slugify d_raw;
          st1 = st\<lparr>disease_label_map := dict_set (disease_label_map st) d_slug d_raw\<rparr>
      in load_symptoms d_slug (split (CHR '','') (as_pystr (Symptom r))) st1)"

fun load_rows :: "row list \<Rightarrow> kb \<Rightarrow> kb" where
  "load_rows [] st = st"
| "load_rows (r # rs) st = load_rows rs (load_row r st)"

text \<open>\<^verbatim>\<open>load_prolog_from_xlsx\<close> on the rows of the file, from the empty global state.\<close>

definition load_prolog_from_xlsx :: "row list \<Rightarrow> kb" where
  "load_prolog_from_xlsx rows = load_rows rows empty_kb"

text \<open>The raw symptom labels in the order the load meets them.\<close>

definition symptom_pieces :: "row list \<Rightarrow> string list" where
  "symptom_pieces rows =
     concat (map (\<lambda>r. map (\<lambda>p. strip (as_pystr p)) (split (CHR '','') (as_pystr (Symptom r)))) rows)"

text \<open>The raw disease labels in the order the load meets them.\<close>

definition disease_labels :: "row list \<Rightarrow> string list" where
  "disease_labels rows = map (\<lambda>r. strip (as_pystr (Disease r))) rows"

section \<open>Resolving mentions\<close>

text \<open>An entity of the NLP pipeline: its \<^verbatim>\<open>text\<close> and its \<^verbatim>\<open>label_\<close>.\<close>

record ent =
  ent_text :: string
  ent_kind :: string

text \<open>The search through \<^verbatim>\<open>symptom_label_map.items()\<close>, left at the first match.\<close>

fun first_match :: "(string \<times> string) list \<Rightarrow> string \<Rightarrow> string option" where
  "first_match [] mention = None"
| "first_match ((slug, full_label) # rest) mention =
     (if py_in mention (lower (as_pystr full_label))
         \<or> py_in (replace (CHR '' '') (CHR ''_'') mention) slug
      then Some (as_pystr slug) else first_match rest mention)"

definition resolve :: "kb \<Rightarrow> string \<Rightarrow> string" where
  "resolve st txt =
     (let mention = lower (strip txt); ent_slug = slugify mention
      in case first_match (symptom_label_map st) mention of
           Some m \<Rightarrow> m
         | None \<Rightarrow> as_pystr ent_slug)"

text \<open>\<^verbatim>\<open>extract_symptoms\<close>, given the entities \<^verbatim>\<open>doc.ents\<close> found in the text.\<close>

fun extract_symptoms :: "kb \<Rightarrow> ent list \<Rightarrow> string list" where
  "extract_symptoms st [] = []"
| "extract_symptoms st (e # es) =
     (if ent_kind e = ''SYMPTOM'' then resolve st (ent_text e) # extract_symptoms st es
      else extract_symptoms st es)"

section \<open>Abduction and ranking\<close>

text \<open>The inner loop of \<^verbatim>\<open>abductive_explanation\<close>, over the solutions of one query.\<close>

fun add_results ::
  "(string \<times> string set) list \<Rightarrow> string list \<Rightarrow> string \<Rightarrow> (string \<times> string set) list" where
  "add_results explanation [] symptom = explanation"
| "add_results explanation (disease # results) symptom =
     add_results (setdefault_add explanation disease symptom) results symptom"

fun explain_from ::
  "kb \<Rightarrow> (string \<times> string set) list \<Rightarrow> string list \<Rightarrow> (string \<times> string set) list" where
  "explain_from st explanation [] = explanation"
| "explain_from st explanation (symptom # symptoms) =
     explain_from st (add_results explanation (query st (as_pystr symptom)) symptom) symptoms"

definition abductive_explanation :: "kb \<Rightarrow> string list \<Rightarrow> (string \<times> string set) list" where
  "abductive_explanation st symptoms = explain_from st [] symptoms"

text \<open>
  \<^verbatim>\<open>sorted(items, key=..., reverse=True)\<close>: Python's sort is stable, and with
  \<^verbatim>\<open>reverse=True\<close> elements of equal key still keep their original order.  The
  model is the stable insertion sort of the library on the negated key.
\<close>

definition sorted_reverse :: "('a \<Rightarrow> nat) \<Rightarrow> 'a list \<Rightarrow> 'a list" where
  "sorted_reverse key xs = sort_key (\<lambda>x. - int (key x)) xs"

definition differential_diagnosis :: "kb \<Rightarrow> string list \<Rightarrow> (string \<times> string set) list" where
  "differential_diagnosis st symptoms =
     (let explanation = abductive_explanation st symptoms
      in sorted_reverse (\<lambda>x. card (snd x)) explanation)"

section \<open>Reporting\<close>

datatype py_error = ZeroDivisionError

text \<open>True division \<^verbatim>\<open>a / b\<close> of two lengths.  Python rounds the quotient to a float;
  the model keeps the exact rational.\<close>

definition truediv :: "nat \<Rightarrow> nat \<Rightarrow> py_error + rat" where
  "truediv a b = (if b = 0 then Inl ZeroDivisionError else Inr (of_nat a / of_nat b))"

text \<open>\<^verbatim>\<open>100 * len(syms) / len(symptoms) if symptoms else 0\<close>.\<close>

definition percent :: "string set \<Rightarrow> string list \<Rightarrow> py_error + rat" where
  "percent syms symptoms =
     (if symptoms \<noteq> [] then truediv (100 * card syms) (length symptoms) else Inr 0)"

text \<open>
  What \<^verbatim>\<open>show_differential\<close> prints, line by line.  A line carries the slugs and
  numbers that the source formats into it (slugs are rendered by \<^verbatim>\<open>human_label\<close>
  at that point).
\<close>

datatype out =
    Banner
  | NoDiseases
  | ObservedHeader
  | ObservedItem string
  | TableHeader
  | TableRow nat string nat nat rat "string set"
  | TopHeader
  | TopRow nat string nat nat "string set"
  | NoSingleDisease
  | UnexplainedLine "string list"
  | NoSymptomsRecognized

text \<open>The loop over \<^verbatim>\<open>enumerate(ranked, 1)\<close> that prints the table.\<close>

fun table_rows :: "(nat \<times> string \<times> string set) list \<Rightarrow> string list \<Rightarrow> py_error + out list" where
  "table_rows [] symptoms = Inr []"
| "table_rows ((i, disease, syms) # rest) symptoms =
     (case percent syms symptoms of
        Inl e \<Rightarrow> Inl e
      | Inr p \<Rightarrow>
          (case table_rows rest symptoms of
             Inl e \<Rightarrow> Inl e
           | Inr ls \<Rightarrow> Inr (TableRow i disease (card syms) (length symptoms) p syms # ls)))"

text \<open>The list \<^verbatim>\<open>top\<close>:
  \<^verbatim>\<open>[(i+1, d, s) for i, (d, s) in enumerate(ranked) if len(s) == len(symptoms)]\<close>.\<close>

definition top_entries :: "(string \<times> string set) list \<Rightarrow> string list \<Rightarrow> (nat \<times> string \<times> string set) list" where
  "top_entries ranked symptoms =
     map (\<lambda>(i, d, s). (i + 1, d, s))
       (filter (\<lambda>(i, d, s). card s = length symptoms) (enumerate 0 ranked))"

text \<open>\<^verbatim>\<open>set(sym for r in ranked for sym in r[1])\<close>.\<close>

definition explained :: "(string \<times> string set) list \<Rightarrow> string set" where
  "explained ranked = \<Union> (set (map snd ranked))"

text \<open>\<^verbatim>\<open>[s for s in symptoms if s not in explained]\<close>.\<close>

definition unexplained :: "(string \<times> string set) list \<Rightarrow> string list \<Rightarrow> string list" where
  "unexplained ranked symptoms = filter (\<lambda>s. s \<notin> explained ranked) symptoms"

definition show_differential :: "(string \<times> string set) list \<Rightarrow> string list \<Rightarrow> py_error + out list" where
  "show_differential ranked symptoms =
     (if ranked = [] then Inr [Banner, NoDiseases]
      else
        (case table_rows (enumerate 1 ranked) symptoms of
           Inl e \<Rightarrow> Inl e
         | Inr rows \<Rightarrow>
             Inr ([Banner, ObservedHeader] @ map ObservedItem symptoms @ [TableHeader] @ rows
                  @ (if top_entries ranked symptoms \<noteq> []
                     then TopHeader #
                       map (\<lambda>(rank, d, syms). TopRow rank d (card syms) (length symptoms) syms)
                         (top_entries ranked symptoms)
                     else [NoSingleDisease])
                  @ (if unexplained ranked symptoms \<noteq> []
                     then [UnexplainedLine (unexplained ranked symptoms)] else []))))"

text \<open>
  One round of the command loop in \<^verbatim>\<open>__main__\<close>, from the entities of the input text
  on: the exception handler around it logs an error and goes on.
\<close>

definition main_round :: "kb \<Rightarrow> ent list \<Rightarrow> py_error + out list" where
  "main_round st ents =
     (let symptoms = extract_symptoms st ents
      in if symptoms = [] then Inr [NoSymptomsRecognized]
         else show_differential (differential_diagnosis st symptoms) symptoms)"

section \<open>Notions used in the statements\<close>

text \<open>
  The observed slugs with later repetitions dropped, first mentions kept in their
  order (what \<^verbatim>\<open>list(dict.fromkeys(symptoms))\<close> would give); \<open>seen\<close> are the values met
  so far.  The source has no such step: this is the "deduplicated sequence" that the
  specification compares with.
\<close>

fun dedup_from :: "'a list \<Rightarrow> 'a list \<Rightarrow> 'a list" where
  "dedup_from seen [] = []"
| "dedup_from seen (x # xs) =
     (if x \<in> set seen then dedup_from seen xs else x # dedup_from (x # seen) xs)"

definition dedup :: "'a list \<Rightarrow> 'a list" where
  "dedup xs = dedup_from [] xs"

text \<open>The number that \<open>percent\<close> computes (it never fails, see \<open>percent_total\<close>).\<close>

definition pct :: "string set \<Rightarrow> string list \<Rightarrow> rat" where
  "pct syms symptoms =
     (if symptoms = [] then 0 else of_nat (100 * card syms) / of_nat (length symptoms))"

section \<open>Example inputs\<close>

text \<open>An entity that the pipeline labelled as a symptom.\<close>

definition symptom_ent :: "string \<Rightarrow> ent" where
  "symptom_ent t = \<lparr>ent_text = t, ent_kind = ''SYMPTOM''\<rparr>"

text \<open>The two records of the specification's first example, and their knowledge base.\<close>

definition flu_cold_rows :: "row list" where
  "flu_cold_rows =
     [\<lparr>Disease = ''Flu'', Symptom = ''UMLS:C0015967_fever, UMLS:C0010200_cough''\<rparr>,
      \<lparr>Disease = ''Cold'', Symptom = ''UMLS:C0010200_cough''\<rparr>]"

definition flu_cold_kb :: kb where
  "flu_cold_kb = load_prolog_from_xlsx flu_cold_rows"

text \<open>Two records that spell one symptom in two ways.\<close>

definition fever_rows :: "row list" where
  "fever_rows =
     [\<lparr>Disease = ''Flu'', Symptom = ''Fever''\<rparr>, \<lparr>Disease = ''Cold'', Symptom = ''fever''\<rparr>]"

text \<open>A knowledge base with the single fact that flu presents with headache.\<close>

definition headache_kb :: kb where
  "headache_kb = load_prolog_from_xlsx [\<lparr>Disease = ''Flu'', Symptom = ''headache''\<rparr>]"

section \<open>Normalisation: basic facts\<close>

lemma slug_char_not_space: "slug_char c \<Longrightarrow> \<not> py_isspace c"
  by (auto simp: slug_char_def py_isspace_def Let_def)

lemma slug_char_lower: "slug_char c \<Longrightarrow> py_lower c = c"
  by (auto simp: slug_char_def py_lower_def Let_def)

lemma slug_char_not_colon: "slug_char c \<Longrightarrow> c \<noteq> CHR '':''"
  by (auto simp: slug_char_def Let_def)

lemma slug_char_not_blank: "slug_char c \<Longrightarrow> c \<noteq> CHR '' ''"
  by (auto simp: slug_char_def Let_def)

lemma slug_char_ascii: "slug_char c \<Longrightarrow> (of_char c :: nat) < 128"
  by (auto simp: slug_char_def Let_def)

lemma slug_char_umls: "list_all slug_char ''umls_''"
  by (simp add: slug_char_def)

lemma strip_slug_chars:
  assumes "list_all slug_char s"
  shows "strip s = s"
proof -
  have a: "dropWhile py_isspace xs = xs" if "list_all slug_char xs" for xs
    using that by (cases xs) (auto dest: slug_char_not_space)
  have "list_all slug_char (rev s)"
    using assms by (simp add: list_all_iff)
  with assms show ?thesis
    by (simp add: strip_def a)
qed

lemma lower_slug_chars: "list_all slug_char s \<Longrightarrow> lower s = s"
  by (induction s) (auto simp: lower_def slug_char_lower)

lemma replace_slug_chars:
  "list_all slug_char s \<Longrightarrow> \<not> slug_char a \<Longrightarrow> replace a b s = s"
  by (induction s) (auto simp: replace_def)

lemma filter_slug_chars: "list_all slug_char s \<Longrightarrow> filter slug_char s = s"
  by (induction s) auto

lemma as_pystr_slug_chars: "list_all slug_char s \<Longrightarrow> as_pystr s = s"
  by (induction s) (auto simp: as_pystr_def dest: slug_char_ascii)

lemma strip_umls_prefix_slug_chars:
  assumes "list_all slug_char s"
  shows "strip_umls_prefix s = s"
proof -
  have "list_all slug_char (take 5 s)"
    using assms by (auto simp: list_all_iff dest: in_set_takeD)
  then have "lower (take 5 s) = take 5 s"
    by (rule lower_slug_chars)
  moreover have "take 5 s \<noteq> ''umls:''"
  proof
    assume "take 5 s = ''umls:''"
    then have "CHR '':'' \<in> set (take 5 s)" by simp
    then have "CHR '':'' \<in> set s" by (rule in_set_takeD)
    with assms have "slug_char CHR '':''" by (simp add: list_all_iff)
    then show False by (simp add: slug_char_def)
  qed
  ultimately show ?thesis
    by (simp add: strip_umls_prefix_def)
qed

lemma slugify_is_slug: "is_slug (slugify x)"
proof -
  have "list_all slug_char (filter slug_char t)" for t
    by (simp add: list_all_iff)
  then show ?thesis
    using slug_char_umls
    by (auto simp: slugify_def is_slug_def Let_def startswith_def)
qed

lemma slugify_fixes_slug:
  assumes "is_slug s"
  shows "slugify s = s"
proof -
  from assms have chars: "list_all slug_char s" and pre: "startswith s ''umls_''"
    by (simp_all add: is_slug_def)
  have nc: "\<not> slug_char CHR '':''" and nb: "\<not> slug_char CHR '' ''"
    by (simp_all add: slug_char_def)
  show ?thesis
    using pre
    by (simp add: slugify_def Let_def strip_slug_chars [OF chars]
        strip_umls_prefix_slug_chars [OF chars] replace_slug_chars [OF chars nc]
        replace_slug_chars [OF chars nb] lower_slug_chars [OF chars]
        filter_slug_chars [OF chars])
qed

lemma as_pystr_slugify: "as_pystr (slugify x) = slugify x"
  using slugify_is_slug [of x] by (simp add: is_slug_def as_pystr_slug_chars)

section \<open>The explanation map\<close>

lemma setdefault_add_keys:
  "map fst (setdefault_add e k x) = (if k \<in> set (map fst e) then map fst e else map fst e @ [k])"
  by (induction e k x rule: setdefault_add.induct) auto

lemma setdefault_add_distinct:
  "distinct (map fst e) \<Longrightarrow> distinct (map fst (setdefault_add e k x))"
  by (simp add: setdefault_add_keys)

lemma map_of_setdefault_add:
  "map_of (setdefault_add e k x) k' =
     (if k' = k then Some (insert x (case map_of e k of None \<Rightarrow> {} | Some s \<Rightarrow> s))
      else map_of e k')"
  by (induction e k x rule: setdefault_add.induct) auto

lemma setdefault_add_noop:
  "map_of e k = Some s \<Longrightarrow> x \<in> s \<Longrightarrow> setdefault_add e k x = e"
  by (induction e k x rule: setdefault_add.induct) (auto simp: insert_absorb split: if_splits)

lemma add_results_distinct:
  "distinct (map fst e) \<Longrightarrow> distinct (map fst (add_results e ds x))"
  by (induction ds arbitrary: e) (auto simp: setdefault_add_distinct)

lemma map_of_add_results:
  "map_of (add_results e ds x) d =
     (if d \<in> set ds then Some (insert x (case map_of e d of None \<Rightarrow> {} | Some s \<Rightarrow> s))
      else map_of e d)"
  by (induction ds arbitrary: e) (auto simp: map_of_setdefault_add)

lemma add_results_noop:
  "\<forall>d \<in> set ds. \<exists>s. map_of e d = Some s \<and> x \<in> s \<Longrightarrow> add_results e ds x = e"
  by (induction ds arbitrary: e) (auto simp: setdefault_add_noop)

lemma add_results_empty_iff: "set (add_results e ds x) = {} \<longleftrightarrow> e = [] \<and> ds = []"
proof (induction ds arbitrary: e)
  case Nil
  then show ?case by simp
next
  case (Cons d ds)
  have "setdefault_add e d x \<noteq> []"
    by (cases e) (auto split: if_splits)
  with Cons.IH [of "setdefault_add e d x"] show ?case by simp
qed

lemma explain_from_distinct:
  "distinct (map fst e) \<Longrightarrow> distinct (map fst (explain_from st e ss))"
  by (induction ss arbitrary: e) (auto simp: add_results_distinct)

lemma map_of_explain_from:
  "map_of (explain_from st e ss) d =
     (if {s \<in> set ss. d \<in> set (query st (as_pystr s))} = {} then map_of e d
      else Some ({s \<in> set ss. d \<in> set (query st (as_pystr s))} \<union> (case map_of e d of None \<Rightarrow> {} | Some s \<Rightarrow> s)))"
proof (induction ss arbitrary: e)
  case Nil
  then show ?case by simp
next
  case (Cons a ss)
  show ?case
    apply (simp only: explain_from.simps Cons.IH map_of_add_results)
    apply (auto split: option.splits)
    done
qed

lemma in_query: "d \<in> set (query st s) \<longleftrightarrow> (d, s) \<in> set (prolog st)"
  by (force simp: query_def)

lemma covered_add_results:
  assumes "\<forall>s \<in> seen. \<forall>d \<in> set (query st (as_pystr s)). \<exists>S. map_of e d = Some S \<and> s \<in> S"
  shows "\<forall>s \<in> insert x seen. \<forall>d \<in> set (query st (as_pystr s)).
           \<exists>S. map_of (add_results e (query st (as_pystr x)) x) d = Some S \<and> s \<in> S"
proof (intro ballI)
  fix s d
  assume s: "s \<in> insert x seen" and d: "d \<in> set (query st (as_pystr s))"
  show "\<exists>S. map_of (add_results e (query st (as_pystr x)) x) d = Some S \<and> s \<in> S"
  proof (cases "d \<in> set (query st (as_pystr x))")
    case True
    show ?thesis
    proof (cases "s = x")
      case True
      with \<open>d \<in> set (query st (as_pystr x))\<close> show ?thesis
        by (simp add: map_of_add_results)
    next
      case False
      with s d assms obtain S where "map_of e d = Some S" "s \<in> S" by blast
      with True show ?thesis
        by (simp add: map_of_add_results)
    qed
  next
    case False
    with d have "s \<noteq> x" by auto
    with s d assms obtain S where "map_of e d = Some S" "s \<in> S" by blast
    with False show ?thesis
      by (simp add: map_of_add_results)
  qed
qed

lemma explain_from_dedup_from:
  "\<forall>s \<in> set seen. \<forall>d \<in> set (query st (as_pystr s)). \<exists>S. map_of e d = Some S \<and> s \<in> S
   \<Longrightarrow> explain_from st e (dedup_from seen ss) = explain_from st e ss"
proof (induction ss arbitrary: e seen)
  case Nil
  then show ?case by simp
next
  case (Cons x ss)
  show ?case
  proof (cases "x \<in> set seen")
    case True
    with Cons.prems have "add_results e (query st (as_pystr x)) x = e"
      by (intro add_results_noop) blast
    with True Cons show ?thesis by simp
  next
    case False
    have "\<forall>s \<in> set (x # seen). \<forall>d \<in> set (query st (as_pystr s)).
           \<exists>S. map_of (add_results e (query st (as_pystr x)) x) d = Some S \<and> s \<in> S"
      using covered_add_results [OF Cons.prems, of x] by simp
    from Cons.IH [OF this] False show ?thesis by simp
  qed
qed

lemma set_dedup_from: "set (dedup_from seen xs) = set xs - set seen"
  by (induction xs arbitrary: seen) auto

lemma distinct_dedup_from: "distinct (dedup_from seen xs)"
  by (induction xs arbitrary: seen) (auto simp: set_dedup_from)

lemma explain_from_known:
  "explain_from st e (filter (\<lambda>s. query st (as_pystr s) \<noteq> []) ss) = explain_from st e ss"
  by (induction ss arbitrary: e) auto

lemma map_of_abductive_explanation:
  "map_of (abductive_explanation st symptoms) d =
     (if \<exists>s \<in> set symptoms. (d, as_pystr s) \<in> set (prolog st)
      then Some {s \<in> set symptoms. (d, as_pystr s) \<in> set (prolog st)} else None)"
  unfolding abductive_explanation_def map_of_explain_from in_query by auto

lemma distinct_abductive_explanation:
  "distinct (map fst (abductive_explanation st symptoms))"
  unfolding abductive_explanation_def by (rule explain_from_distinct) simp

lemma entry_abductive_explanation:
  assumes "(d, S) \<in> set (abductive_explanation st symptoms)"
  shows "S = {s \<in> set symptoms. (d, as_pystr s) \<in> set (prolog st)}" and "S \<noteq> {}"
proof -
  from assms have m: "map_of (abductive_explanation st symptoms) d = Some S"
    by (simp add: distinct_abductive_explanation)
  then show "S = {s \<in> set symptoms. (d, as_pystr s) \<in> set (prolog st)}"
    by (simp add: map_of_abductive_explanation split: if_splits)
  with m show "S \<noteq> {}"
    by (auto simp: map_of_abductive_explanation split: if_splits)
qed

section \<open>Ranking\<close>




lemma set_sorted_reverse: "set (sorted_reverse key xs) = set xs"
  by (simp add: sorted_reverse_def)

lemma length_sorted_reverse: "length (sorted_reverse key xs) = length xs"
  by (simp add: sorted_reverse_def)

section \<open>The report\<close>

lemma percent_total: "percent syms symptoms = Inr (pct syms symptoms)"
  by (simp add: percent_def truediv_def pct_def)

lemma table_rows_total:
  "table_rows rs symptoms =
     Inr (map (\<lambda>(i, d, syms). TableRow i d (card syms) (length symptoms) (pct syms symptoms) syms) rs)"
  by (induction rs symptoms rule: table_rows.induct) (simp_all add: percent_total)

lemma show_differential_total:
  "show_differential ranked symptoms =
     Inr (if ranked = [] then [Banner, NoDiseases]
          else [Banner, ObservedHeader] @ map ObservedItem symptoms @ [TableHeader]
            @ map (\<lambda>(i, d, syms). TableRow i d (card syms) (length symptoms) (pct syms symptoms) syms)
                (enumerate 1 ranked)
            @ (if top_entries ranked symptoms \<noteq> []
               then TopHeader #
                 map (\<lambda>(rank, d, syms). TopRow rank d (card syms) (length symptoms) syms)
                   (top_entries ranked symptoms)
               else [NoSingleDisease])
            @ (if unexplained ranked symptoms \<noteq> []
               then [UnexplainedLine (unexplained ranked symptoms)] else []))"
  by (simp add: show_differential_def table_rows_total)

lemma table_row_image:
  "TableRow r d k n p syms \<in> (\<lambda>(i, d, syms). TableRow i d (card syms) m (f syms) syms) ` S
     \<longleftrightarrow> (r, d, syms) \<in> S \<and> k = card syms \<and> n = m \<and> p = f syms"
  by force

lemma top_row_image:
  "TopRow r d k n syms \<in> (\<lambda>(i, d, syms). TopRow i d (card syms) m syms) ` S
     \<longleftrightarrow> (r, d, syms) \<in> S \<and> k = card syms \<and> n = m"
  by force

lemma other_row_image:
  "TopRow r d k n syms \<notin> (\<lambda>(i, d, syms). TableRow i d (card syms) m (f syms) syms) ` S"
  "TableRow r d k n p syms \<notin> (\<lambda>(i, d, syms). TopRow i d (card syms) m syms) ` S"
  "UnexplainedLine u \<notin> (\<lambda>(i, d, syms). TopRow i d (card syms) m syms) ` S"
  "UnexplainedLine u \<notin> (\<lambda>(i, d, syms). TableRow i d (card syms) m (f syms) syms) ` S"
  by auto



lemma unexplained_line_shown:
  assumes "show_differential ranked symptoms = Inr out"
  shows "UnexplainedLine u \<in> set out \<longleftrightarrow>
     ranked \<noteq> [] \<and> u = unexplained ranked symptoms \<and> u \<noteq> []"
  using assms unfolding show_differential_total
  by (auto simp: table_row_image top_row_image other_row_image split: if_splits)


lemma top_iff:
  "(r, d, s) \<in> set (top_entries ranked symptoms) \<longleftrightarrow>
     0 < r \<and> r \<le> length ranked \<and> ranked ! (r - 1) = (d, s) \<and> card s = length symptoms"
proof -
  have "(r, d, s) \<in> set (top_entries ranked symptoms) \<longleftrightarrow>
        (\<exists>i. (i, d, s) \<in> set (enumerate 0 ranked) \<and> card s = length symptoms \<and> r = i + 1)"
    by (force simp: top_entries_def)
  also have "\<dots> \<longleftrightarrow> (\<exists>i. i < length ranked \<and> ranked ! i = (d, s) \<and> card s = length symptoms \<and> r = i + 1)"
    by (auto simp: in_set_enumerate_eq)
  also have "\<dots> \<longleftrightarrow> 0 < r \<and> r \<le> length ranked \<and> ranked ! (r - 1) = (d, s) \<and> card s = length symptoms"
    by (cases r) auto
  finally show ?thesis .
qed

lemma top_distinct_iff:
  assumes "distinct symptoms"
  shows "(r, d, s) \<in> set (top_entries ranked symptoms) \<longleftrightarrow>
     0 < r \<and> r \<le> length ranked \<and> ranked ! (r - 1) = (d, s) \<and> card s = card (set symptoms)"
  unfolding top_iff using assms by (simp add: distinct_card)


lemma set_differential_diagnosis:
  "set (differential_diagnosis st symptoms) = set (abductive_explanation st symptoms)"
  by (simp add: differential_diagnosis_def set_sorted_reverse)

lemma matched_subset:
  assumes "e \<in> set (differential_diagnosis st symptoms)"
  shows "snd e \<subseteq> set symptoms" and "finite (snd e)" and "snd e \<noteq> {}"
proof -
  from assms have "(fst e, snd e) \<in> set (abductive_explanation st symptoms)"
    by (simp add: set_differential_diagnosis)
  from entry_abductive_explanation [OF this]
  show s: "snd e \<subseteq> set symptoms" and "snd e \<noteq> {}" by auto
  from s show "finite (snd e)" by (rule finite_subset) simp
qed



lemma count_list_filter:
  "count_list (filter P xs) s = (if P s then count_list xs s else 0)"
  by (induction xs) auto

lemma explained_differential_diagnosis:
  "explained (differential_diagnosis st symptoms) \<subseteq> set symptoms"
  using matched_subset(1) [of _ st symptoms] by (auto simp: explained_def)

section \<open>The label tables and the resolver\<close>

lemma map_of_dict_set: "map_of (dict_set d k v) = (map_of d)(k \<mapsto> v)"
  by (induction d k v rule: dict_set.induct) auto

lemma keys_dict_set: "fst ` set (dict_set d k v) = insert k (fst ` set d)"
  by (induction d k v rule: dict_set.induct) auto

lemma distinct_dict_set: "distinct (map fst d) \<Longrightarrow> distinct (map fst (dict_set d k v))"
  by (induction d k v rule: dict_set.induct) (auto simp: keys_dict_set)

lemma map_of_rev_labels:
  "map_of (rev (map (\<lambda>r. (f r, r)) xs)) k =
     (case filter (\<lambda>r. f r = k) xs of [] \<Rightarrow> None | y # ys \<Rightarrow> Some (last (y # ys)))"
proof (induction xs rule: rev_induct)
  case Nil
  then show ?case by simp
next
  case (snoc a xs)
  then show ?case
    by (cases "filter (\<lambda>r. f r = k) xs") auto
qed

lemma upd_map_add: "(m(k \<mapsto> v)) ++ n = m ++ (map_of [(k, v)] ++ n)"
  by (rule ext) (simp add: map_add_def split: option.splits)

lemma load_symptoms_labels:
  "map_of (symptom_label_map (load_symptoms d ps st)) =
     map_of (symptom_label_map st)
       ++ map_of (rev (map (\<lambda>r. (slugify r, r)) (map (\<lambda>p. strip (as_pystr p)) ps)))"
proof (induction ps arbitrary: st)
  case Nil
  then show ?case by simp
next
  case (Cons p ps)
  have "map_of (symptom_label_map (load_symptoms d (p # ps) st)) =
      (map_of (symptom_label_map st))(slugify (strip (as_pystr p)) \<mapsto> strip (as_pystr p))
        ++ map_of (rev (map (\<lambda>r. (slugify r, r)) (map (\<lambda>p. strip (as_pystr p)) ps)))"
    by (simp add: Cons.IH Let_def assertz_def map_of_dict_set fun_upd_def)
  also have "\<dots> = map_of (symptom_label_map st)
       ++ map_of (rev (map (\<lambda>r. (slugify r, r)) (map (\<lambda>p. strip (as_pystr p)) (p # ps))))"
    unfolding upd_map_add by simp
  finally show ?case .
qed

lemma load_symptoms_diseases:
  "disease_label_map (load_symptoms d ps st) = disease_label_map st"
  by (induction ps arbitrary: st) (simp_all add: Let_def assertz_def)

lemma load_rows_symptom_labels:
  "map_of (symptom_label_map (load_rows rows st)) =
     map_of (symptom_label_map st)
       ++ map_of (rev (map (\<lambda>r. (slugify r, r)) (symptom_pieces rows)))"
proof (induction rows arbitrary: st)
  case Nil
  then show ?case by (simp add: symptom_pieces_def)
next
  case (Cons r rows)
  have "symptom_pieces (r # rows) =
      map (\<lambda>p. strip (as_pystr p)) (split (CHR '','') (as_pystr (Symptom r))) @ symptom_pieces rows"
    by (simp add: symptom_pieces_def)
  then show ?case
    by (simp add: Cons.IH load_row_def Let_def load_symptoms_labels)
qed

lemma load_rows_disease_labels:
  "map_of (disease_label_map (load_rows rows st)) =
     map_of (disease_label_map st)
       ++ map_of (rev (map (\<lambda>r. (slugify r, r)) (disease_labels rows)))"
proof (induction rows arbitrary: st)
  case Nil
  then show ?case by (simp add: disease_labels_def)
next
  case (Cons r rows)
  have "map_of (disease_label_map (load_rows (r # rows) st)) =
      (map_of (disease_label_map st))
          (slugify (strip (as_pystr (Disease r))) \<mapsto> strip (as_pystr (Disease r)))
        ++ map_of (rev (map (\<lambda>r. (slugify r, r)) (disease_labels rows)))"
    by (simp add: Cons.IH load_row_def Let_def load_symptoms_diseases map_of_dict_set fun_upd_def)
  also have "\<dots> = map_of (disease_label_map st)
       ++ map_of (rev (map (\<lambda>r. (slugify r, r)) (disease_labels (r # rows))))"
    unfolding upd_map_add by (simp add: disease_labels_def)
  finally show ?case .
qed

lemma startswith_iff: "startswith s p \<longleftrightarrow> (\<exists>q. s = p @ q)"
proof
  assume "startswith s p"
  then have "s = p @ drop (length p) s"
    unfolding startswith_def by (metis append_take_drop_id)
  then show "\<exists>q. s = p @ q" ..
next
  assume "\<exists>q. s = p @ q"
  then show "startswith s p" by (auto simp: startswith_def)
qed

lemma py_in_iff: "py_in sub s \<longleftrightarrow> (\<exists>p q. s = p @ sub @ q)"
proof (induction s)
  case Nil
  then show ?case by auto
next
  case (Cons y ys)
  show ?case
  proof
    assume "py_in sub (y # ys)"
    then consider "startswith (y # ys) sub" | "py_in sub ys" by auto
    then show "\<exists>p q. y # ys = p @ sub @ q"
    proof cases
      case 1
      then obtain q where "y # ys = sub @ q" by (auto simp: startswith_iff)
      then have "y # ys = [] @ sub @ q" by simp
      then show ?thesis by blast
    next
      case 2
      with Cons.IH obtain p q where "ys = p @ sub @ q" by blast
      then have "y # ys = (y # p) @ sub @ q" by simp
      then show ?thesis by blast
    qed
  next
    assume "\<exists>p q. y # ys = p @ sub @ q"
    then obtain p q where pq: "y # ys = p @ sub @ q" by blast
    show "py_in sub (y # ys)"
    proof (cases p)
      case Nil
      with pq have "startswith (y # ys) sub" by (auto simp: startswith_iff)
      then show ?thesis by simp
    next
      case (Cons a p')
      with pq have "ys = p' @ sub @ q" by simp
      with Cons.IH have "py_in sub ys" by blast
      then show ?thesis by simp
    qed
  qed
qed

lemma first_match_None_iff:
  "first_match tbl mention = None \<longleftrightarrow>
     (\<forall>(slug, full_label) \<in> set tbl.
        \<not> py_in mention (lower (as_pystr full_label))
        \<and> \<not> py_in (replace (CHR '' '') (CHR ''_'') mention) slug)"
  by (induction tbl mention rule: first_match.induct) auto

lemma load_symptoms_facts:
  "snd ` set (prolog (load_symptoms d ps st)) =
     snd ` set (prolog st) \<union> (\<lambda>p. slugify (strip (as_pystr p))) ` set ps"
  by (induction ps arbitrary: st) (auto simp: Let_def assertz_def as_pystr_slugify)

lemma load_symptoms_keys:
  "fst ` set (symptom_label_map (load_symptoms d ps st)) =
     fst ` set (symptom_label_map st) \<union> (\<lambda>p. slugify (strip (as_pystr p))) ` set ps"
  by (induction ps arbitrary: st) (auto simp: Let_def assertz_def keys_dict_set)

lemma load_rows_known:
  "snd ` set (prolog st) = fst ` set (symptom_label_map st) \<Longrightarrow>
   snd ` set (prolog (load_rows rows st)) = fst ` set (symptom_label_map (load_rows rows st))"
proof (induction rows arbitrary: st)
  case Nil
  then show ?case by simp
next
  case (Cons r rows)
  have "snd ` set (prolog (load_row r st)) = fst ` set (symptom_label_map (load_row r st))"
    using Cons.prems by (simp add: load_row_def Let_def load_symptoms_facts load_symptoms_keys)
  from Cons.IH [OF this] show ?case by simp
qed

lemma loaded_query_empty_iff:
  "query (load_prolog_from_xlsx rows) s = [] \<longleftrightarrow>
     s \<notin> fst ` set (symptom_label_map (load_prolog_from_xlsx rows))"
proof -
  have "snd ` set (prolog (load_prolog_from_xlsx rows))
      = fst ` set (symptom_label_map (load_prolog_from_xlsx rows))"
    unfolding load_prolog_from_xlsx_def by (rule load_rows_known) (simp add: empty_kb_def)
  then have "s \<notin> fst ` set (symptom_label_map (load_prolog_from_xlsx rows))
      \<longleftrightarrow> s \<notin> snd ` set (prolog (load_prolog_from_xlsx rows))" by simp
  also have "\<dots> \<longleftrightarrow> query (load_prolog_from_xlsx rows) s = []"
    by (auto simp: query_def filter_empty_conv)
  finally show ?thesis by simp
qed

section \<open>The examples, evaluated\<close>

lemma flu_cold_kb_value:
  "flu_cold_kb =
     \<lparr>disease_label_map = [(''umls_flu'', ''Flu''), (''umls_cold'', ''Cold'')],
      symptom_label_map =
        [(''umls_c0015967_fever'', ''UMLS:C0015967_fever''),
         (''umls_c0010200_cough'', ''UMLS:C0010200_cough'')],
      prolog =
        [(''umls_flu'', ''umls_c0015967_fever''), (''umls_flu'', ''umls_c0010200_cough''),
         (''umls_cold'', ''umls_c0010200_cough'')]\<rparr>"
  by code_simp

lemma headache_kb_value:
  "headache_kb =
     \<lparr>disease_label_map = [(''umls_flu'', ''Flu'')],
      symptom_label_map = [(''umls_headache'', ''headache'')],
      prolog = [(''umls_flu'', ''umls_headache'')]\<rparr>"
  by code_simp

section \<open>Claims\<close>

text \<open>
  C7.  Slug normalisation is idempotent: for every raw string \<open>x\<close>, normalising the
  result of \<open>slugify x\<close> again returns it unchanged; in particular an already
  normalised slug is returned as it is.
\<close>

theorem slugify_idempotent: "slugify (slugify x) = slugify x"
  by (rule slugify_fixes_slug) (rule slugify_is_slug)

text \<open>
  C5.  For every knowledge base and every observed sequence the explanation map has
  one entry per disease; its keys are exactly the diseases with a fact for at least
  one observed symptom, and each is mapped to the set of the observed symptoms it has
  a fact for (the query is made with \<open>as_pystr s\<close>, which is \<open>s\<close> itself for a slug),
  never to the empty set.  Repeated mentions change nothing: the result on the
  sequence with repetitions dropped is the same, and so is the result on the sequence
  without the symptoms that no fact mentions.
\<close>

theorem abductive_explanation_map:
  "distinct (map fst (abductive_explanation st symptoms))
   \<and> dict_get (abductive_explanation st symptoms) d =
       (if \<exists>s \<in> set symptoms. (d, as_pystr s) \<in> set (prolog st)
        then Some {s \<in> set symptoms. (d, as_pystr s) \<in> set (prolog st)} else None)
   \<and> dict_get (abductive_explanation st symptoms) d \<noteq> Some {}
   \<and> distinct (dedup symptoms) \<and> set (dedup symptoms) = set symptoms
   \<and> abductive_explanation st (dedup symptoms) = abductive_explanation st symptoms
   \<and> abductive_explanation st (filter (\<lambda>s. query st (as_pystr s) \<noteq> []) symptoms)
       = abductive_explanation st symptoms"
proof -
  have "abductive_explanation st (dedup symptoms) = abductive_explanation st symptoms"
    unfolding abductive_explanation_def dedup_def
    by (rule explain_from_dedup_from) simp
  moreover have "dict_get (abductive_explanation st symptoms) d \<noteq> Some {}"
    unfolding dict_get_def map_of_abductive_explanation by auto
  moreover have "abductive_explanation st (filter (\<lambda>s. query st (as_pystr s) \<noteq> []) symptoms)
       = abductive_explanation st symptoms"
    unfolding abductive_explanation_def by (rule explain_from_known)
  ultimately show ?thesis
    by (simp add: distinct_abductive_explanation dict_get_def map_of_abductive_explanation
        dedup_def distinct_dedup_from set_dedup_from)
qed





text \<open>
  C1, at the input where the code departs from it.  The text "fever ... fever" gives
  two mentions of one slug.  Flu's matched set has one element, which is the number
  of distinct observed slugs, yet flu is not listed as explaining all symptoms: the
  list is empty and the report says that no single disease explains all symptoms,
  with a coverage of 50 percent.
\<close>

theorem repeated_mention_not_fully_explanatory:
  "extract_symptoms flu_cold_kb [symptom_ent ''fever'', symptom_ent ''fever'']
     = [''umls_c0015967_fever'', ''umls_c0015967_fever'']
   \<and> differential_diagnosis flu_cold_kb [''umls_c0015967_fever'', ''umls_c0015967_fever'']
     = [(''umls_flu'', {''umls_c0015967_fever''})]
   \<and> card {''umls_c0015967_fever''} = card (set [''umls_c0015967_fever'', ''umls_c0015967_fever''])
   \<and> top_entries [(''umls_flu'', {''umls_c0015967_fever''})]
        [''umls_c0015967_fever'', ''umls_c0015967_fever''] = []
   \<and> main_round flu_cold_kb [symptom_ent ''fever'', symptom_ent ''fever'']
     = Inr [Banner, ObservedHeader, ObservedItem ''umls_c0015967_fever'',
            ObservedItem ''umls_c0015967_fever'', TableHeader,
            TableRow 1 ''umls_flu'' 1 2 50 {''umls_c0015967_fever''}, NoSingleDisease]"
  unfolding flu_cold_kb_value by code_simp

text \<open>
  C9, as the specification states it, fails: the slug of the disease "Flu" is
  \<open>umls_flu\<close>; the code \<open>c0015967\<close> belongs to the symptom fever and is no part of it.
\<close>

theorem flu_cold_disease_slug_counterexample:
  "map fst (differential_diagnosis flu_cold_kb
      (extract_symptoms flu_cold_kb [symptom_ent ''fever'', symptom_ent ''cough'']))
     = [''umls_flu'', ''umls_cold'']
   \<and> ''umls_flu'' \<noteq> ''umls_c0015967_flu''"
  unfolding flu_cold_kb_value by code_simp

text \<open>
  C9, amended.  For the two records of the example and the mentions "fever" and
  "cough", the ranking is flu (slug \<open>umls_flu\<close>) with both observed symptoms, then cold
  (slug \<open>umls_cold\<close>) with cough; the list of the diseases that explain everything
  holds the entry of rank 1 only; no symptom is unexplained.
\<close>

theorem flu_cold_example:
  "extract_symptoms flu_cold_kb [symptom_ent ''fever'', symptom_ent ''cough'']
     = [''umls_c0015967_fever'', ''umls_c0010200_cough'']
   \<and> differential_diagnosis flu_cold_kb [''umls_c0015967_fever'', ''umls_c0010200_cough'']
     = [(''umls_flu'', {''umls_c0015967_fever'', ''umls_c0010200_cough''}),
        (''umls_cold'', {''umls_c0010200_cough''})]
   \<and> top_entries (differential_diagnosis flu_cold_kb [''umls_c0015967_fever'', ''umls_c0010200_cough''])
        [''umls_c0015967_fever'', ''umls_c0010200_cough'']
     = [(1, ''umls_flu'', {''umls_c0015967_fever'', ''umls_c0010200_cough''})]
   \<and> unexplained
        (differential_diagnosis flu_cold_kb [''umls_c0015967_fever'', ''umls_c0010200_cough''])
        [''umls_c0015967_fever'', ''umls_c0010200_cough''] = []"
  unfolding flu_cold_kb_value by code_simp

text \<open>
  C2, as the specification states it, fails: a value that no ranked entry explains is
  listed once for every mention of it, not once.
\<close>

theorem unexplained_repeats_counterexample:
  "unexplained
     (differential_diagnosis flu_cold_kb [''umls_c0015967_fever'', ''umls_xx'', ''umls_xx''])
     [''umls_c0015967_fever'', ''umls_xx'', ''umls_xx''] = [''umls_xx'', ''umls_xx'']"
  unfolding flu_cold_kb_value by code_simp

text \<open>
  C2, amended.  \<open>show_differential\<close> prints a line of unexplained symptoms exactly when
  the ranking is not empty and some observed slug is in no matched set; the line then
  holds the observed sequence without the slugs that occur in a matched set, in the
  order of observation and with every remaining slug as often as it was mentioned.
  With an empty ranking the function returns before it looks for unexplained
  symptoms.  For the ranking of the observed sequence itself, the matched sets and
  the unexplained slugs together are the observed slugs.
\<close>

theorem unexplained_report:
  "(\<exists>out. show_differential ranked symptoms = Inr out
      \<and> (\<forall>u. UnexplainedLine u \<in> set out \<longleftrightarrow>
            ranked \<noteq> [] \<and> u = unexplained ranked symptoms \<and> u \<noteq> []))
   \<and> unexplained ranked symptoms = filter (\<lambda>s. s \<notin> \<Union> (snd ` set ranked)) symptoms
   \<and> set (unexplained ranked symptoms) = set symptoms - \<Union> (snd ` set ranked)
   \<and> (\<forall>s. count_list (unexplained ranked symptoms) s =
            (if s \<in> \<Union> (snd ` set ranked) then 0 else count_list symptoms s))
   \<and> \<Union> (snd ` set (differential_diagnosis st symptoms))
       \<union> set (unexplained (differential_diagnosis st symptoms) symptoms) = set symptoms"
proof -
  obtain out where out: "show_differential ranked symptoms = Inr out"
    by (simp add: show_differential_total)
  have 1: "\<exists>out. show_differential ranked symptoms = Inr out
      \<and> (\<forall>u. UnexplainedLine u \<in> set out \<longleftrightarrow>
            ranked \<noteq> [] \<and> u = unexplained ranked symptoms \<and> u \<noteq> [])"
    using out unexplained_line_shown [OF out] by blast
  have 2: "unexplained ranked symptoms = filter (\<lambda>s. s \<notin> \<Union> (snd ` set ranked)) symptoms"
    by (simp add: unexplained_def explained_def)
  have 3: "set (unexplained ranked symptoms) = set symptoms - \<Union> (snd ` set ranked)"
    unfolding 2 by auto
  have 4: "\<forall>s. count_list (unexplained ranked symptoms) s =
            (if s \<in> \<Union> (snd ` set ranked) then 0 else count_list symptoms s)"
    unfolding 2 by (simp add: count_list_filter)
  have 5: "\<Union> (snd ` set (differential_diagnosis st symptoms))
       \<union> set (unexplained (differential_diagnosis st symptoms) symptoms) = set symptoms"
    using explained_differential_diagnosis [of st symptoms]
    by (auto simp: unexplained_def explained_def)
  from 1 2 3 4 5 show ?thesis by blast
qed

theorem unexplained_report_witness:
  "\<exists>out. show_differential
       (differential_diagnosis flu_cold_kb [''umls_c0015967_fever'', ''umls_xx'', ''umls_xx''])
       [''umls_c0015967_fever'', ''umls_xx'', ''umls_xx''] = Inr out
     \<and> UnexplainedLine [''umls_xx'', ''umls_xx''] \<in> set out"
proof -
  have a: "differential_diagnosis flu_cold_kb [''umls_c0015967_fever'', ''umls_xx'', ''umls_xx''] \<noteq> []"
    unfolding flu_cold_kb_value by code_simp
  have b: "unexplained
     (differential_diagnosis flu_cold_kb [''umls_c0015967_fever'', ''umls_xx'', ''umls_xx''])
     [''umls_c0015967_fever'', ''umls_xx'', ''umls_xx''] = [''umls_xx'', ''umls_xx'']"
    unfolding flu_cold_kb_value by code_simp
  from unexplained_report
         [of "differential_diagnosis flu_cold_kb [''umls_c0015967_fever'', ''umls_xx'', ''umls_xx'']"
             "[''umls_c0015967_fever'', ''umls_xx'', ''umls_xx'']"]
  obtain out where "show_differential
       (differential_diagnosis flu_cold_kb [''umls_c0015967_fever'', ''umls_xx'', ''umls_xx''])
       [''umls_c0015967_fever'', ''umls_xx'', ''umls_xx''] = Inr out"
    and "\<forall>u. UnexplainedLine u \<in> set out \<longleftrightarrow>
            differential_diagnosis flu_cold_kb [''umls_c0015967_fever'', ''umls_xx'', ''umls_xx''] \<noteq> []
            \<and> u = unexplained
                (differential_diagnosis flu_cold_kb [''umls_c0015967_fever'', ''umls_xx'', ''umls_xx''])
                [''umls_c0015967_fever'', ''umls_xx'', ''umls_xx''] \<and> u \<noteq> []"
    by blast
  with a b show ?thesis by simp
qed

text \<open>
  C8.  With no observed symptoms the ranking is empty, so are the list of the diseases
  that explain everything and the list of unexplained symptoms, and nothing fails:
  \<open>show_differential\<close> prints that no disease explains the symptoms (the command
  loop does not even get there and reports that it recognised no symptom), and the
  percentage over an empty observation is 0, not a division by zero.
\<close>

theorem empty_query:
  "differential_diagnosis st [] = []
   \<and> top_entries (differential_diagnosis st []) [] = []
   \<and> unexplained (differential_diagnosis st []) [] = []
   \<and> show_differential (differential_diagnosis st []) [] = Inr [Banner, NoDiseases]
   \<and> main_round st [] = Inr [NoSymptomsRecognized]
   \<and> percent syms [] = Inr 0
   \<and> (\<exists>out. show_differential ranked [] = Inr out)"
proof -
  have d: "differential_diagnosis st [] = []"
    by (simp add: differential_diagnosis_def abductive_explanation_def sorted_reverse_def)
  have "\<exists>out. show_differential ranked [] = Inr out"
    by (simp add: show_differential_total)
  moreover have "top_entries [] [] = []" "unexplained [] [] = []"
    by (simp_all add: top_entries_def unexplained_def)
  moreover have "show_differential [] [] = Inr [Banner, NoDiseases]"
    by (simp add: show_differential_def)
  moreover have "main_round st [] = Inr [NoSymptomsRecognized]"
    by (simp add: main_round_def)
  moreover have "percent syms [] = Inr 0"
    by (simp add: percent_def)
  ultimately show ?thesis
    unfolding d by blast
qed

text \<open>
  C3, as the specification states it, fails: of two raw labels with the same slug the
  table keeps the one seen last.
\<close>

theorem first_label_overwritten_counterexample:
  "symptom_pieces fever_rows = [''Fever'', ''fever'']
   \<and> slugify ''Fever'' = ''umls_fever'' \<and> slugify ''fever'' = ''umls_fever''
   \<and> dict_get (symptom_label_map (load_prolog_from_xlsx fever_rows)) ''umls_fever'' = Some ''fever''"
  by code_simp

text \<open>
  C3, amended.  After the load the label registered for a slug is the raw label seen
  last among those that normalise to it, for symptoms and for diseases alike: the
  load assigns \<^verbatim>\<open>label_map[slug] = raw\<close> for every record, so a later raw label
  overwrites an earlier one.  A slug that no raw label produces has no entry.
\<close>

theorem last_label_wins:
  "dict_get (symptom_label_map (load_prolog_from_xlsx rows)) k =
     (case filter (\<lambda>r. slugify r = k) (symptom_pieces rows) of
        [] \<Rightarrow> None | y # ys \<Rightarrow> Some (last (y # ys)))
   \<and> dict_get (disease_label_map (load_prolog_from_xlsx rows)) k =
     (case filter (\<lambda>r. slugify r = k) (disease_labels rows) of
        [] \<Rightarrow> None | y # ys \<Rightarrow> Some (last (y # ys)))"
  by (simp add: dict_get_def load_prolog_from_xlsx_def load_rows_symptom_labels
      load_rows_disease_labels empty_kb_def map_of_rev_labels)

text \<open>
  C4, as the specification states it, fails: a mention can match no entry of the label
  table and still normalise to a slug of the knowledge base.  The mention "head-ache"
  is contained neither in the label "headache" nor in the slug \<open>umls_headache\<close>, but
  its own slug is \<open>umls_headache\<close>; the ranking then holds flu and nothing is
  unexplained.
\<close>

theorem fallback_slug_in_kb_counterexample:
  "first_match (symptom_label_map headache_kb) (lower (strip ''head-ache'')) = None
   \<and> extract_symptoms headache_kb [symptom_ent ''head-ache''] = [''umls_headache'']
   \<and> differential_diagnosis headache_kb [''umls_headache'']
       = [(''umls_flu'', {''umls_headache''})]
   \<and> unexplained (differential_diagnosis headache_kb [''umls_headache'']) [''umls_headache''] = []"
  unfolding headache_kb_value by code_simp

text \<open>
  C4, amended.  A single mention that matches no entry of the symptom label table is
  resolved to the slug of the trimmed, lower-cased mention, whether or not the
  knowledge base knows that slug.  The ranking for it is empty exactly when no fact
  of the knowledge base has the slug as its symptom (for a loaded knowledge base:
  when the slug is no key of the label table, \<open>loaded_query_empty_iff\<close>).  In that
  case the slug is the only value the list of unexplained symptoms would hold; but
  with an empty ranking \<open>show_differential\<close> returns after the message that no disease
  explains the symptoms, and prints no unexplained symptoms.
\<close>

theorem unresolved_mention:
  assumes "first_match (symptom_label_map st) (lower (strip txt)) = None"
  shows "extract_symptoms st [symptom_ent txt] = [slugify (lower (strip txt))]
     \<and> (differential_diagnosis st [slugify (lower (strip txt))] = []
          \<longleftrightarrow> query st (slugify (lower (strip txt))) = [])
     \<and> (query st (slugify (lower (strip txt))) = [] \<longrightarrow>
          differential_diagnosis st [slugify (lower (strip txt))] = []
          \<and> unexplained (differential_diagnosis st [slugify (lower (strip txt))])
               [slugify (lower (strip txt))] = [slugify (lower (strip txt))]
          \<and> show_differential (differential_diagnosis st [slugify (lower (strip txt))])
               [slugify (lower (strip txt))] = Inr [Banner, NoDiseases]
          \<and> main_round st [symptom_ent txt] = Inr [Banner, NoDiseases])"
proof -
  let ?slug = "slugify (lower (strip txt))"
  have e: "extract_symptoms st [symptom_ent txt] = [?slug]"
    using assms by (simp add: symptom_ent_def resolve_def Let_def as_pystr_slugify)
  have "set (differential_diagnosis st [?slug]) = set (add_results [] (query st ?slug) ?slug)"
    by (simp add: set_differential_diagnosis abductive_explanation_def as_pystr_slugify)
  then have q: "differential_diagnosis st [?slug] = [] \<longleftrightarrow> query st ?slug = []"
    by (simp add: add_results_empty_iff flip: set_empty)
  have u: "unexplained [] [?slug] = [?slug]"
    by (simp add: unexplained_def explained_def)
  have s: "show_differential [] [?slug] = Inr [Banner, NoDiseases]"
    by (simp add: show_differential_def)
  have m: "main_round st [symptom_ent txt] = Inr [Banner, NoDiseases]"
    if "differential_diagnosis st [?slug] = []"
    unfolding main_round_def e Let_def that using s by simp
  have r: "differential_diagnosis st [?slug] = []
      \<and> unexplained (differential_diagnosis st [?slug]) [?slug] = [?slug]
      \<and> show_differential (differential_diagnosis st [?slug]) [?slug] = Inr [Banner, NoDiseases]
      \<and> main_round st [symptom_ent txt] = Inr [Banner, NoDiseases]"
    if "query st ?slug = []"
  proof -
    from that q have d: "differential_diagnosis st [?slug] = []" by simp
    show ?thesis
      unfolding d using u s m [OF d] by simp
  qed
  from e q r show ?thesis by blast
qed

theorem unresolved_mention_witness:
  "first_match (symptom_label_map flu_cold_kb) (lower (strip ''headache'')) = None
   \<and> query flu_cold_kb (slugify (lower (strip ''headache''))) = []
   \<and> extract_symptoms flu_cold_kb [symptom_ent ''headache''] = [''umls_headache'']
   \<and> differential_diagnosis flu_cold_kb [''umls_headache''] = []
   \<and> main_round flu_cold_kb [symptom_ent ''headache''] = Inr [Banner, NoDiseases]"
proof -
  have h1: "first_match (symptom_label_map flu_cold_kb) (lower (strip ''headache'')) = None"
    unfolding flu_cold_kb_value by code_simp
  have h2: "query flu_cold_kb (slugify (lower (strip ''headache''))) = []"
    unfolding flu_cold_kb_value by code_simp
  have s: "slugify (lower (strip ''headache'')) = ''umls_headache''"
    by code_simp
  from unresolved_mention [OF h1] h1 h2 show ?thesis
    unfolding s by simp
qed

end
